theory Spec2Isabelle
  imports Complex_Main "HOL-Library.Char_ord" "HOL-Library.List_Lexorder"
    "HOL-Library.Product_Lexorder"
begin

section \<open>Word-embedding tutorial notebook: shallow embedding\<close>

text \<open>
  The notebook \<^verbatim>\<open>Tut5_Word_Embeddings_Student.ipynb\<close> is a script: a text
  normaliser (\<^verbatim>\<open>NLP_preprocessing_pipeline\<close>), a Keras \<^verbatim>\<open>TextVectorization\<close> layer
  adapted on the training split, a list comprehension that turns index sequences back
  into words, two gensim \<^verbatim>\<open>Word2Vec\<close> models and a loop that assembles one embedding
  matrix per model. The cells are embedded in the order of the notebook. Python
  exceptions are values of \<open>error\<close>; a computation that may raise returns
  \<open>error + 'a\<close>. The only exception the embedded cells can raise themselves is the
  \<^verbatim>\<open>IndexError\<close> of an index out of range.
\<close>

datatype error = IndexError

text \<open>Indexing a Python list or a numpy array at a non-negative index.\<close>

definition getitem :: "'a list \<Rightarrow> nat \<Rightarrow> error + 'a" where
  "getitem xs i = (if i < length xs then Inr (xs ! i) else Inl IndexError)"

subsection \<open>Filling the embedding matrices (the cell after the Word2Vec training)\<close>

text \<open>
  What the loop reads: the vocabulary list \<^verbatim>\<open>vocab\<close>, the keyed vectors
  \<^verbatim>\<open>w2v_model_cbow.wv\<close> and \<^verbatim>\<open>w2v_model_skipgram.wv\<close> (a dictionary from token to
  vector; \<^verbatim>\<open>in\<close> tests the key, indexing returns the vector), and the weight
  matrices \<^verbatim>\<open>embedding_layer_cbow.get_weights()[0]\<close> and
  \<^verbatim>\<open>embedding_layer_skipgram.get_weights()[0]\<close> (a list of rows). The loop never
  writes to any of them, so they are read from one record. A vector is a value of
  type \<open>'v\<close>: the loop only copies vectors.
\<close>

record 'v notebook =
  vocab :: "string list"
  w2v_model_cbow :: "string \<rightharpoonup> 'v"
  w2v_model_skipgram :: "string \<rightharpoonup> 'v"
  embedding_layer_cbow :: "'v list"
  embedding_layer_skipgram :: "'v list"

text \<open>
  \<^verbatim>\<open>if vocab[token_idx] in wv: embeddings.append(wv[vocab[token_idx]])\<close>
  \<^verbatim>\<open>else: embeddings.append(layer.get_weights()[0][1])\<close>
\<close>

definition append_trained_or_unk ::
    "(string \<rightharpoonup> 'v) \<Rightarrow> 'v list \<Rightarrow> string \<Rightarrow> 'v list \<Rightarrow> error + 'v list" where
  "append_trained_or_unk wv weights tok embeddings =
     (case wv tok of
        Some v \<Rightarrow> Inr (embeddings @ [v])
      | None \<Rightarrow>
          (case getitem weights 1 of
             Inl e \<Rightarrow> Inl e
           | Inr unk \<Rightarrow> Inr (embeddings @ [unk])))"

text \<open>The body of the \<^verbatim>\<open>for token_idx in range(0,len(vocab))\<close> loop; the state is
  the pair \<^verbatim>\<open>(embeddings_cbow, embeddings_skipgram)\<close>.\<close>

definition fill_step ::
    "'v notebook \<Rightarrow> nat \<Rightarrow> 'v list \<times> 'v list \<Rightarrow> error + 'v list \<times> 'v list" where
  "fill_step nb token_idx st =
     (case st of (embeddings_cbow, embeddings_skipgram) \<Rightarrow>
        if token_idx > 1 then
          (case getitem (vocab nb) token_idx of
             Inl e \<Rightarrow> Inl e
           | Inr tok \<Rightarrow>
               (case append_trained_or_unk (w2v_model_cbow nb) (embedding_layer_cbow nb)
                       tok embeddings_cbow of
                  Inl e \<Rightarrow> Inl e
                | Inr ec \<Rightarrow>
                    (case append_trained_or_unk (w2v_model_skipgram nb)
                            (embedding_layer_skipgram nb) tok embeddings_skipgram of
                       Inl e \<Rightarrow> Inl e
                     | Inr es \<Rightarrow> Inr (ec, es))))
        else
          (case getitem (embedding_layer_cbow nb) token_idx of
             Inl e \<Rightarrow> Inl e
           | Inr c \<Rightarrow>
               (case getitem (embedding_layer_skipgram nb) token_idx of
                  Inl e \<Rightarrow> Inl e
                | Inr s \<Rightarrow> Inr (embeddings_cbow @ [c], embeddings_skipgram @ [s]))))"

fun fill_loop ::
    "'v notebook \<Rightarrow> nat list \<Rightarrow> 'v list \<times> 'v list \<Rightarrow> error + 'v list \<times> 'v list" where
  "fill_loop nb [] st = Inr st"
| "fill_loop nb (token_idx # rest) st =
     (case fill_step nb token_idx st of
        Inl e \<Rightarrow> Inl e
      | Inr st' \<Rightarrow> fill_loop nb rest st')"

text \<open>The whole cell up to the two \<^verbatim>\<open>set_weights\<close> calls: both lists start empty.\<close>

definition fill_embedding_matrices :: "'v notebook \<Rightarrow> error + 'v list \<times> 'v list" where
  "fill_embedding_matrices nb = fill_loop nb [0..<length (vocab nb)] ([], [])"

text \<open>The row the loop appends at \<open>token_idx\<close> for one model, when the layer has
  at least two rows.\<close>

definition table_row :: "string list \<Rightarrow> (string \<rightharpoonup> 'v) \<Rightarrow> 'v list \<Rightarrow> nat \<Rightarrow> 'v" where
  "table_row vs wv weights i =
     (if i > 1 then (case wv (vs ! i) of Some v \<Rightarrow> v | None \<Rightarrow> weights ! 1)
      else weights ! i)"

subsection \<open>The vectorisation layer (Keras \<^verbatim>\<open>TextVectorization\<close>)\<close>

text \<open>
  The notebook creates the layer with \<^verbatim>\<open>standardize = None\<close>,
  \<^verbatim>\<open>max_tokens = vocab_size\<close> and \<^verbatim>\<open>output_sequence_length = seq_length\<close>, calls
  \<^verbatim>\<open>adapt\<close> on the training split, reads \<^verbatim>\<open>get_vocabulary()\<close> and then calls the
  layer on documents. The layer's implementation is in the Keras library and not in
  the notebook; its state and its operations are modelled from section 4.2 of the
  specification.
\<close>

definition vocab_size :: nat where
  "vocab_size = 15000"

definition seq_length :: nat where
  "seq_length = 100"

record text_vectorization =
  max_tokens :: nat
  output_sequence_length :: nat
  vocabulary :: "string list"

text \<open>Modelled from the spec: the layer before \<^verbatim>\<open>adapt\<close> (Keras'
  \<^verbatim>\<open>TextVectorization\<close> constructor). Index 0 is reserved for the empty padding
  marker and index 1 for the unknown marker.\<close>

definition TextVectorization :: "nat \<Rightarrow> nat \<Rightarrow> text_vectorization" where
  "TextVectorization mt osl =
     \<lparr>max_tokens = mt, output_sequence_length = osl, vocabulary = ['''', ''[UNK]'']\<rparr>"

definition vectorize_layer :: text_vectorization where
  "vectorize_layer = TextVectorization vocab_size seq_length"

text \<open>Modelled from the spec: tokenisation of an already normalised document (Keras'
  default \<^verbatim>\<open>split = "whitespace"\<close>): maximal runs of non-whitespace characters.\<close>

definition ascii_space :: "char \<Rightarrow> bool" where
  "ascii_space c = (c \<in> set [CHR '' '', CHR 0x09, CHR 0x0A, CHR 0x0B, CHR 0x0C, CHR 0x0D])"

fun split_acc :: "string \<Rightarrow> string \<Rightarrow> string list" where
  "split_acc cur [] = (if cur = [] then [] else [cur])"
| "split_acc cur (c # cs) =
     (if ascii_space c then (if cur = [] then split_acc [] cs else cur # split_acc [] cs)
      else split_acc (cur @ [c]) cs)"

definition split_whitespace :: "string \<Rightarrow> string list" where
  "split_whitespace s = split_acc [] s"

text \<open>Modelled from the spec: \<^verbatim>\<open>adapt\<close> (Keras). Token frequencies over the
  documents it is given; the two markers are not counted; the \<open>max_tokens - 2\<close>
  most frequent distinct tokens follow the two reserved entries. The specification
  leaves the order of equally frequent tokens open; the library orders them by
  descending token, which is what reversing the ascending sort on (count, token)
  does.\<close>

definition token_counts :: "string list \<Rightarrow> (string \<times> nat) list" where
  "token_counts docs =
     (let toks = concat (map split_whitespace docs)
      in map (\<lambda>t. (t, count_list toks t))
           (filter (\<lambda>t. t \<noteq> '''' \<and> t \<noteq> ''[UNK]'') (remdups toks)))"

text \<open>Modelled from the spec: the order of the learnt tokens inside \<^verbatim>\<open>adapt\<close>, most
  frequent first.\<close>

definition by_frequency :: "(string \<times> nat) list \<Rightarrow> string list" where
  "by_frequency tcs = map fst (rev (sort_key (\<lambda>tc. (snd tc, fst tc)) tcs))"

text \<open>Modelled from the spec: \<^verbatim>\<open>vectorize_layer.adapt(docs)\<close>; only the vocabulary
  of the layer changes.\<close>

definition adapt :: "text_vectorization \<Rightarrow> string list \<Rightarrow> text_vectorization" where
  "adapt layer docs =
     layer\<lparr>vocabulary :=
       ['''', ''[UNK]''] @ take (max_tokens layer - 2) (by_frequency (token_counts docs))\<rparr>"

text \<open>Modelled from the spec: \<^verbatim>\<open>vectorize_layer.get_vocabulary()\<close>, the list of
  tokens in index order.\<close>

definition get_vocabulary :: "text_vectorization \<Rightarrow> string list" where
  "get_vocabulary layer = vocabulary layer"

text \<open>Modelled from the spec: the lookup of one token (inside Keras' layer): its
  index in the vocabulary, and the unknown index 1 for a token that is not in it.\<close>

fun index_of :: "'a list \<Rightarrow> 'a \<Rightarrow> nat option" where
  "index_of [] y = None"
| "index_of (x # xs) y = (if x = y then Some 0 else map_option Suc (index_of xs y))"

definition token_index :: "string list \<Rightarrow> string \<Rightarrow> nat" where
  "token_index vs tok = (case index_of vs tok of Some i \<Rightarrow> i | None \<Rightarrow> 1)"

text \<open>Modelled from the spec: the fixed length of the output (inside Keras' layer):
  truncate to \<open>L\<close> entries, or pad on the right with index 0.\<close>

definition pad_or_truncate :: "nat \<Rightarrow> nat list \<Rightarrow> nat list" where
  "pad_or_truncate L ids = take L ids @ replicate (L - length ids) 0"

text \<open>Modelled from the spec: calling the layer on one document (Keras'
  \<^verbatim>\<open>TextVectorization.__call__\<close>): tokenise, look every token up, then bring the
  result to \<open>output_sequence_length\<close>. The layer is returned with the result, as the
  call is a method of a stateful object.\<close>

definition call :: "text_vectorization \<Rightarrow> string \<Rightarrow> nat list \<times> text_vectorization" where
  "call layer doc =
     (pad_or_truncate (output_sequence_length layer)
        (map (token_index (vocabulary layer)) (split_whitespace doc)),
      layer)"

text \<open>Modelled from the spec: calling the layer on a collection of documents
  (\<^verbatim>\<open>vectorize_layer(Xclean_train)\<close>), one row per document.\<close>

fun call_batch ::
    "text_vectorization \<Rightarrow> string list \<Rightarrow> nat list list \<times> text_vectorization" where
  "call_batch layer [] = ([], layer)"
| "call_batch layer (doc # docs) =
     (case call layer doc of (ids, layer') \<Rightarrow>
        (case call_batch layer' docs of (rest, layer'') \<Rightarrow> (ids # rest, layer'')))"

subsection \<open>From index sequences back to words\<close>

text \<open>
  \<^verbatim>\<open>X_train_words = [[vocab[w] for w in rev if vocab[w] not in ['','[UNK]']]\<close>
  \<^verbatim>\<open>                 for rev in X_train_vec]\<close>
\<close>

fun words_of_review :: "string list \<Rightarrow> nat list \<Rightarrow> error + string list" where
  "words_of_review vs [] = Inr []"
| "words_of_review vs (w # review) =
     (case getitem vs w of
        Inl e \<Rightarrow> Inl e
      | Inr tok \<Rightarrow>
          (case words_of_review vs review of
             Inl e \<Rightarrow> Inl e
           | Inr toks \<Rightarrow> Inr (if tok \<notin> set ['''', ''[UNK]''] then tok # toks else toks)))"

fun X_train_words :: "string list \<Rightarrow> nat list list \<Rightarrow> error + string list list" where
  "X_train_words vs [] = Inr []"
| "X_train_words vs (review # X_train_vec) =
     (case words_of_review vs review of
        Inl e \<Rightarrow> Inl e
      | Inr ws \<Rightarrow>
          (case X_train_words vs X_train_vec of
             Inl e \<Rightarrow> Inl e
           | Inr wss \<Rightarrow> Inr (ws # wss)))"

subsection \<open>The text normaliser\<close>

text \<open>
  \<^verbatim>\<open>NLP_preprocessing_pipeline\<close> calls BeautifulSoup and NLTK, whose code and data
  (the HTML parser, the tokeniser, the stop-word list, the part-of-speech tagger and
  the WordNet lemmatiser) are not in the notebook. They are the fields of one record
  that the pipeline takes as a parameter. Everything the notebook itself does (the
  two regular-expression substitutions, the lower-casing, the stop-word filter, the
  tag dictionary and the join) is written out. The dataset is read with
  \<^verbatim>\<open>encoding="ISO-8859-1"\<close>, so every character of a review is one of the 256 of
  \<open>char\<close>. A character beyond them that the markup stripper may produce from an
  entity is not a letter a to z, and the substitution after it turns every such
  character into a space; in the result of \<open>get_text\<close> it is any \<open>char\<close> that is not
  such a letter.
\<close>

datatype wordnet_pos = ADJ | NOUN | VERB | ADV

record nlp_resources =
  get_text :: "string \<Rightarrow> string"
  word_tokenize :: "string \<Rightarrow> string list"
  stopwords_english :: "string list"
  pos_tag :: "string \<Rightarrow> string"
  lemmatize :: "string \<Rightarrow> wordnet_pos \<Rightarrow> string"

text \<open>The characters Python's \<^verbatim>\<open>re\<close> takes for whitespace (\<^verbatim>\<open>\s\<close> on a
  \<^verbatim>\<open>str\<close> pattern), among the first 256 code points.\<close>

definition py_space :: "char \<Rightarrow> bool" where
  "py_space c =
     (let n = (of_char c :: nat)
      in (9 \<le> n \<and> n \<le> 13) \<or> (28 \<le> n \<and> n \<le> 32) \<or> n = 133 \<or> n = 160)"

text \<open>\<^verbatim>\<open>re.sub("http\S+", "", textual_sample)\<close>: scanning from the left, every
  \<^verbatim>\<open>http\<close> that is followed by at least one non-whitespace character is removed
  together with the whole run of non-whitespace characters after it. The flag says
  that the scan is inside such a run.\<close>

definition url_start :: "string \<Rightarrow> bool" where
  "url_start s =
     (take 4 s = ''http'' \<and> (case drop 4 s of [] \<Rightarrow> False | d # _ \<Rightarrow> \<not> py_space d))"

fun sub_urls :: "bool \<Rightarrow> string \<Rightarrow> string" where
  "sub_urls in_url [] = []"
| "sub_urls True (c # cs) = (if py_space c then c # sub_urls False cs else sub_urls True cs)"
| "sub_urls False (c # cs) =
     (if url_start (c # cs) then sub_urls True cs else c # sub_urls False cs)"

definition remove_urls :: "string \<Rightarrow> string" where
  "remove_urls s = sub_urls False s"

text \<open>\<^verbatim>\<open>re.sub("[^a-zA-Z]", " ", s)\<close>\<close>

definition ascii_letter :: "char \<Rightarrow> bool" where
  "ascii_letter c =
     (let n = (of_char c :: nat) in (97 \<le> n \<and> n \<le> 122) \<or> (65 \<le> n \<and> n \<le> 90))"

definition non_letters_to_spaces :: "string \<Rightarrow> string" where
  "non_letters_to_spaces s = map (\<lambda>c. if ascii_letter c then c else CHR '' '') s"

text \<open>\<^verbatim>\<open>str.lower()\<close> on the first 256 code points: the letters A to Z, and the
  accented capitals 192 to 222 except the multiplication sign 215.\<close>

definition lower_char :: "char \<Rightarrow> char" where
  "lower_char c =
     (let n = (of_char c :: nat)
      in if (65 \<le> n \<and> n \<le> 90) \<or> (192 \<le> n \<and> n \<le> 222 \<and> n \<noteq> 215)
         then char_of (n + 32) else c)"

definition lower :: "string \<Rightarrow> string" where
  "lower s = map lower_char s"

text \<open>\<^verbatim>\<open>tag = nltk.pos_tag([word])[0][1][0].upper()\<close> and
  \<^verbatim>\<open>tag_dict.get(tag, wordnet.NOUN)\<close>. Only the first character of the tag is
  read; it raises \<^verbatim>\<open>IndexError\<close> on an empty tag. A character whose upper case
  is one of J, N, V, R is that letter in either case.\<close>

definition tag_dict_get :: "char \<Rightarrow> wordnet_pos" where
  "tag_dict_get tag =
     (if tag = CHR ''J'' then ADJ
      else if tag = CHR ''N'' then NOUN
      else if tag = CHR ''V'' then VERB
      else if tag = CHR ''R'' then ADV
      else NOUN)"

definition upper_char :: "char \<Rightarrow> char" where
  "upper_char c =
     (let n = (of_char c :: nat) in if 97 \<le> n \<and> n \<le> 122 then char_of (n - 32) else c)"

definition get_wordnet_pos :: "nlp_resources \<Rightarrow> string \<Rightarrow> error + wordnet_pos" where
  "get_wordnet_pos r word =
     (case getitem (pos_tag r word) 0 of
        Inl e \<Rightarrow> Inl e
      | Inr c \<Rightarrow> Inr (tag_dict_get (upper_char c)))"

text \<open>\<^verbatim>\<open>[lemmatizer.lemmatize(w, get_wordnet_pos(w)) for w in \<dots>]\<close>\<close>

fun lemmatize_all :: "nlp_resources \<Rightarrow> string list \<Rightarrow> error + string list" where
  "lemmatize_all r [] = Inr []"
| "lemmatize_all r (w # ws) =
     (case get_wordnet_pos r w of
        Inl e \<Rightarrow> Inl e
      | Inr pos \<Rightarrow>
          (case lemmatize_all r ws of
             Inl e \<Rightarrow> Inl e
           | Inr ls \<Rightarrow> Inr (lemmatize r w pos # ls)))"

text \<open>\<^verbatim>\<open>' '.join(\<dots>)\<close>\<close>

fun join_spaces :: "string list \<Rightarrow> string" where
  "join_spaces [] = []"
| "join_spaces [w] = w"
| "join_spaces (w # ws) = w @ CHR '' '' # join_spaces ws"

definition NLP_preprocessing_pipeline :: "nlp_resources \<Rightarrow> string \<Rightarrow> error + string" where
  "NLP_preprocessing_pipeline r textual_sample =
     (let s1 = remove_urls textual_sample;
          s2 = get_text r s1;
          s3 = non_letters_to_spaces s2;
          s4 = lower s3;
          toks = word_tokenize r s4;
          kept = filter (\<lambda>w. w \<notin> set (stopwords_english r)) toks
      in case lemmatize_all r kept of
           Inl e \<Rightarrow> Inl e
         | Inr ls \<Rightarrow> Inr (join_spaces ls))"

text \<open>A word of lower-case letters a to z, and at least one of them.\<close>

definition lower_letter :: "char \<Rightarrow> bool" where
  "lower_letter c = (let n = (of_char c :: nat) in 97 \<le> n \<and> n \<le> 122)"

definition lower_word :: "string \<Rightarrow> bool" where
  "lower_word w = (w \<noteq> [] \<and> list_all lower_letter w)"

text \<open>What the properties below ask of the libraries: a text of lower-case letters
  and spaces is tokenised into words of lower-case letters, the tagger gives every
  such word a tag of at least one character, and the lemma of such a word is again
  a word of lower-case letters.\<close>

definition letters_in_letters_out :: "nlp_resources \<Rightarrow> bool" where
  "letters_in_letters_out r =
     ((\<forall>t. list_all (\<lambda>c. lower_letter c \<or> c = CHR '' '') t
            \<longrightarrow> list_all lower_word (word_tokenize r t))
      \<and> (\<forall>w. lower_word w \<longrightarrow> pos_tag r w \<noteq> [])
      \<and> (\<forall>w p. lower_word w \<longrightarrow> lower_word (lemmatize r w p)))"

text \<open>A small stand-in for the libraries, for concrete runs: text without markup is
  its own text, tokens are the whitespace-separated words, every word is tagged as a
  noun, and three entries of each of the stop-word list and the lemma dictionary.\<close>

definition excerpt_lemma :: "string \<Rightarrow> wordnet_pos \<Rightarrow> string" where
  "excerpt_lemma w p =
     (if w = ''beings'' \<and> p = NOUN then ''being''
      else if w = ''reviewers'' \<and> p = NOUN then ''reviewer''
      else if w = ''films'' \<and> p = NOUN then ''film''
      else w)"

definition excerpt :: nlp_resources where
  "excerpt =
     \<lparr>get_text = (\<lambda>s. s),
      word_tokenize = split_whitespace,
      stopwords_english = [''the'', ''of'', ''being''],
      pos_tag = (\<lambda>w. ''NN''),
      lemmatize = excerpt_lemma\<rparr>"

subsection \<open>The decision threshold\<close>

text \<open>Modelled from the spec: the argument of \<^verbatim>\<open>cbow_class_pr=np.where(...)\<close> is
  left out of the notebook (it is an exercise); the text above the cell asks for the
  threshold 0.5, and the specification for class 1 at or above it.\<close>

definition class_pr :: "real \<Rightarrow> nat" where
  "class_pr p = (if p \<ge> 0.5 then 1 else 0)"

subsection \<open>Concrete runs\<close>

text \<open>The scenarios of section 8 of the specification: the vocabulary of the
  one-document corpus \<open>film good film\<close>, one trained vector for \<open>good\<close>, and
  layers whose row 1 is \<open>[0, 0]\<close>; first with layers of four rows, then
  (\<open>small_corpus\<close>) with the \<open>vocab_size\<close> rows the notebook creates.\<close>

definition scenario_vocab :: "string list" where
  "scenario_vocab = ['''', ''[UNK]'', ''film'', ''good'']"

definition scenario :: "real list notebook" where
  "scenario =
     \<lparr>vocab = scenario_vocab,
      w2v_model_cbow = [''good'' \<mapsto> [0.1, 0.2]],
      w2v_model_skipgram = [''film'' \<mapsto> [0.7, 0.8]],
      embedding_layer_cbow = [[0.5, 0.5], [0, 0], [0.3, 0.3], [0.4, 0.4]],
      embedding_layer_skipgram = [[0.6, 0.6], [0, 0], [0.9, 0.9], [1, 1]]\<rparr>"

definition small_corpus :: "real list notebook" where
  "small_corpus =
     \<lparr>vocab = scenario_vocab,
      w2v_model_cbow = [''good'' \<mapsto> [0.1, 0.2]],
      w2v_model_skipgram = [''good'' \<mapsto> [0.1, 0.2]],
      embedding_layer_cbow = replicate vocab_size [0, 0],
      embedding_layer_skipgram = replicate vocab_size [0, 0]\<rparr>"

section \<open>Properties\<close>

subsection \<open>The embedding matrices\<close>

lemma getitem_in_range: "i < length xs \<Longrightarrow> getitem xs i = Inr (xs ! i)"
  by (simp add: getitem_def)

lemma fill_loop_snoc:
  "fill_loop nb (xs @ [i]) st =
     (case fill_loop nb xs st of Inl e \<Rightarrow> Inl e | Inr st' \<Rightarrow> fill_step nb i st')"
  by (induction xs arbitrary: st) (auto split: sum.splits)

lemma fill_step_row:
  assumes "2 \<le> length (embedding_layer_cbow nb)"
    and "2 \<le> length (embedding_layer_skipgram nb)"
    and "i < length (vocab nb)"
  shows "fill_step nb i (ec, es) =
     Inr (ec @ [table_row (vocab nb) (w2v_model_cbow nb) (embedding_layer_cbow nb) i],
          es @ [table_row (vocab nb) (w2v_model_skipgram nb) (embedding_layer_skipgram nb) i])"
  using assms
  by (auto simp: fill_step_def append_trained_or_unk_def getitem_def table_row_def
      split: option.splits)

lemma fill_loop_upt:
  assumes "2 \<le> length (embedding_layer_cbow nb)"
    and "2 \<le> length (embedding_layer_skipgram nb)"
    and "n \<le> length (vocab nb)"
  shows "fill_loop nb [0..<n] ([], []) =
     Inr (map (table_row (vocab nb) (w2v_model_cbow nb) (embedding_layer_cbow nb)) [0..<n],
          map (table_row (vocab nb) (w2v_model_skipgram nb) (embedding_layer_skipgram nb)) [0..<n])"
  using assms(3)
proof (induction n)
  case 0
  show ?case by simp
next
  case (Suc n)
  then have "n < length (vocab nb)" and "n \<le> length (vocab nb)" by simp_all
  with Suc.IH assms(1,2) show ?case
    by (simp add: fill_loop_snoc fill_step_row)
qed

lemma fill_embedding_matrices_rows:
  assumes "2 \<le> length (embedding_layer_cbow nb)"
    and "2 \<le> length (embedding_layer_skipgram nb)"
  shows "fill_embedding_matrices nb =
     Inr (map (table_row (vocab nb) (w2v_model_cbow nb) (embedding_layer_cbow nb))
            [0..<length (vocab nb)],
          map (table_row (vocab nb) (w2v_model_skipgram nb) (embedding_layer_skipgram nb))
            [0..<length (vocab nb)])"
  unfolding fill_embedding_matrices_def using assms by (simp add: fill_loop_upt)

text \<open>
  Claim C1. With layers of at least two rows the loop returns both tables, each with one
  row per vocabulary index. Row \<open>i\<close> is the layer's own row \<open>i\<close> when \<open>i\<close> is 0 or 1;
  above that it is the trained vector of \<open>vocab[i]\<close> when the model has one, and the
  layer's row 1 (the unknown index) otherwise.
\<close>

theorem embedding_table_rule:
  assumes "2 \<le> length (embedding_layer_cbow nb)"
    and "2 \<le> length (embedding_layer_skipgram nb)"
  shows "\<exists>embeddings_cbow embeddings_skipgram.
     fill_embedding_matrices nb = Inr (embeddings_cbow, embeddings_skipgram)
     \<and> length embeddings_cbow = length (vocab nb)
     \<and> length embeddings_skipgram = length (vocab nb)
     \<and> (\<forall>i < length (vocab nb).
          embeddings_cbow ! i =
            (if i = 0 \<or> i = 1 then embedding_layer_cbow nb ! i
             else case w2v_model_cbow nb (vocab nb ! i) of
                    Some v \<Rightarrow> v
                  | None \<Rightarrow> embedding_layer_cbow nb ! 1)
          \<and> embeddings_skipgram ! i =
            (if i = 0 \<or> i = 1 then embedding_layer_skipgram nb ! i
             else case w2v_model_skipgram nb (vocab nb ! i) of
                    Some v \<Rightarrow> v
                  | None \<Rightarrow> embedding_layer_skipgram nb ! 1))"
proof -
  let ?tc = "map (table_row (vocab nb) (w2v_model_cbow nb) (embedding_layer_cbow nb))
               [0..<length (vocab nb)]"
  let ?ts = "map (table_row (vocab nb) (w2v_model_skipgram nb) (embedding_layer_skipgram nb))
               [0..<length (vocab nb)]"
  have run: "fill_embedding_matrices nb = Inr (?tc, ?ts)"
    using assms by (rule fill_embedding_matrices_rows)
  have rows: "?tc ! i =
        (if i = 0 \<or> i = 1 then embedding_layer_cbow nb ! i
         else case w2v_model_cbow nb (vocab nb ! i) of
                Some v \<Rightarrow> v | None \<Rightarrow> embedding_layer_cbow nb ! 1)
      \<and> ?ts ! i =
        (if i = 0 \<or> i = 1 then embedding_layer_skipgram nb ! i
         else case w2v_model_skipgram nb (vocab nb ! i) of
                Some v \<Rightarrow> v | None \<Rightarrow> embedding_layer_skipgram nb ! 1)"
    if "i < length (vocab nb)" for i
    using that by (auto simp: table_row_def)
  show ?thesis
    using run rows by simp
qed

text \<open>
  The rule at the specification's example: only \<open>good\<close> is trained for the first model,
  row 1 of the layer is \<open>[0, 0]\<close>, and the table is
  \<open>[default0, default1, fallback, [0.1, 0.2]]\<close>.
\<close>

theorem embedding_table_rule_scenario:
  "2 \<le> length (embedding_layer_cbow scenario)
   \<and> 2 \<le> length (embedding_layer_skipgram scenario)
   \<and> fill_embedding_matrices scenario =
       Inr ([[0.5, 0.5], [0, 0], [0, 0], [0.1, 0.2]],
            [[0.6, 0.6], [0, 0], [0.7, 0.8], [0, 0]])"
proof -
  have c: "2 \<le> length (embedding_layer_cbow scenario)"
    and s: "2 \<le> length (embedding_layer_skipgram scenario)"
    by (simp_all add: scenario_def)
  from embedding_table_rule [OF c s]
  obtain tc ts where run: "fill_embedding_matrices scenario = Inr (tc, ts)"
    and lc: "length tc = length (vocab scenario)"
    and ls: "length ts = length (vocab scenario)"
    and rows: "\<forall>i < length (vocab scenario).
          tc ! i =
            (if i = 0 \<or> i = 1 then embedding_layer_cbow scenario ! i
             else case w2v_model_cbow scenario (vocab scenario ! i) of
                    Some v \<Rightarrow> v
                  | None \<Rightarrow> embedding_layer_cbow scenario ! 1)
          \<and> ts ! i =
            (if i = 0 \<or> i = 1 then embedding_layer_skipgram scenario ! i
             else case w2v_model_skipgram scenario (vocab scenario ! i) of
                    Some v \<Rightarrow> v
                  | None \<Rightarrow> embedding_layer_skipgram scenario ! 1)"
    by blast
  have len: "length (vocab scenario) = 4"
    by (simp add: scenario_def scenario_vocab_def)
  have r0: "tc ! 0 = [0.5, 0.5] \<and> ts ! 0 = [0.6, 0.6]"
    using rows len by (simp add: scenario_def)
  have r1: "tc ! 1 = [0, 0] \<and> ts ! 1 = [0, 0]"
    using rows len by (simp add: scenario_def)
  have r2: "tc ! 2 = [0, 0] \<and> ts ! 2 = [0.7, 0.8]"
    using rows [rule_format, of 2] len by (simp add: scenario_def scenario_vocab_def)
  have r3: "tc ! 3 = [0.1, 0.2] \<and> ts ! 3 = [0, 0]"
    using rows [rule_format, of 3] len by (simp add: scenario_def scenario_vocab_def)
  have four: "xs = [xs ! 0, xs ! 1, xs ! 2, xs ! 3]" if "length xs = 4" for xs :: "real list list"
    using that by (auto simp: list_eq_iff_nth_eq less_Suc_eq numeral_eq_Suc)
  have "tc = [[0.5, 0.5], [0, 0], [0, 0], [0.1, 0.2]]"
    using four [of tc] lc len r0 r1 r2 r3 by simp
  moreover have "ts = [[0.6, 0.6], [0, 0], [0.7, 0.8], [0, 0]]"
    using four [of ts] ls len r0 r1 r2 r3 by simp
  ultimately show ?thesis
    using run c s by simp
qed

text \<open>
  Claim C9. In each of the two tables, a row above index 1 whose token has no trained
  vector equals row 1 of the same table, which is the layer's row 1; so any two such
  rows of one table are equal.
\<close>

theorem fallback_rows_equal_row_one:
  assumes "2 \<le> length (embedding_layer_cbow nb)"
    and "2 \<le> length (embedding_layer_skipgram nb)"
  shows "\<exists>embeddings_cbow embeddings_skipgram.
     fill_embedding_matrices nb = Inr (embeddings_cbow, embeddings_skipgram)
     \<and> (\<forall>i < length (vocab nb). 1 < i \<and> w2v_model_cbow nb (vocab nb ! i) = None
          \<longrightarrow> embeddings_cbow ! i = embeddings_cbow ! 1
              \<and> embeddings_cbow ! 1 = embedding_layer_cbow nb ! 1)
     \<and> (\<forall>i < length (vocab nb). 1 < i \<and> w2v_model_skipgram nb (vocab nb ! i) = None
          \<longrightarrow> embeddings_skipgram ! i = embeddings_skipgram ! 1
              \<and> embeddings_skipgram ! 1 = embedding_layer_skipgram nb ! 1)
     \<and> (\<forall>i < length (vocab nb). \<forall>j < length (vocab nb).
          1 < i \<and> w2v_model_cbow nb (vocab nb ! i) = None
          \<and> 1 < j \<and> w2v_model_cbow nb (vocab nb ! j) = None
          \<longrightarrow> embeddings_cbow ! i = embeddings_cbow ! j)
     \<and> (\<forall>i < length (vocab nb). \<forall>j < length (vocab nb).
          1 < i \<and> w2v_model_skipgram nb (vocab nb ! i) = None
          \<and> 1 < j \<and> w2v_model_skipgram nb (vocab nb ! j) = None
          \<longrightarrow> embeddings_skipgram ! i = embeddings_skipgram ! j)"
proof -
  let ?n = "length (vocab nb)"
  let ?tc = "map (table_row (vocab nb) (w2v_model_cbow nb) (embedding_layer_cbow nb)) [0..<?n]"
  let ?ts = "map (table_row (vocab nb) (w2v_model_skipgram nb) (embedding_layer_skipgram nb))
               [0..<?n]"
  have run: "fill_embedding_matrices nb = Inr (?tc, ?ts)"
    using assms by (rule fill_embedding_matrices_rows)
  have unk: "map (table_row vs wv ws) [0..<?n] ! i = ws ! 1
      \<and> map (table_row vs wv ws) [0..<?n] ! 1 = ws ! 1"
    if "i < ?n" and "1 < i" and "wv (vs ! i) = None"
    for i and vs :: "string list" and wv :: "string \<rightharpoonup> 'a" and ws
    using that by (simp add: table_row_def)
  have c: "?tc ! i = ?tc ! 1 \<and> ?tc ! 1 = embedding_layer_cbow nb ! 1"
    if "i < ?n" and "1 < i \<and> w2v_model_cbow nb (vocab nb ! i) = None" for i
    using unk [of i "w2v_model_cbow nb" "vocab nb"] that by simp
  have s: "?ts ! i = ?ts ! 1 \<and> ?ts ! 1 = embedding_layer_skipgram nb ! 1"
    if "i < ?n" and "1 < i \<and> w2v_model_skipgram nb (vocab nb ! i) = None" for i
    using unk [of i "w2v_model_skipgram nb" "vocab nb"] that by simp
  have cc: "?tc ! i = ?tc ! j"
    if "i < ?n" and "j < ?n" and "1 < i \<and> w2v_model_cbow nb (vocab nb ! i) = None
      \<and> 1 < j \<and> w2v_model_cbow nb (vocab nb ! j) = None" for i j
    using c [of i] c [of j] that by simp
  have ss: "?ts ! i = ?ts ! j"
    if "i < ?n" and "j < ?n" and "1 < i \<and> w2v_model_skipgram nb (vocab nb ! i) = None
      \<and> 1 < j \<and> w2v_model_skipgram nb (vocab nb ! j) = None" for i j
    using s [of i] s [of j] that by simp
  show ?thesis
    using run c s cc ss by blast
qed

text \<open>
  In the example, \<open>film\<close> is untrained in the first model and \<open>good\<close> in the second.
\<close>

theorem fallback_rows_equal_row_one_scenario:
  "\<exists>embeddings_cbow embeddings_skipgram.
     fill_embedding_matrices scenario = Inr (embeddings_cbow, embeddings_skipgram)
     \<and> w2v_model_cbow scenario (vocab scenario ! 2) = None
     \<and> embeddings_cbow ! 2 = embeddings_cbow ! 1
     \<and> embeddings_cbow ! 1 = [0, 0]
     \<and> w2v_model_skipgram scenario (vocab scenario ! 3) = None
     \<and> embeddings_skipgram ! 3 = embeddings_skipgram ! 1
     \<and> embeddings_skipgram ! 1 = [0, 0]"
proof -
  have c: "2 \<le> length (embedding_layer_cbow scenario)"
    and s: "2 \<le> length (embedding_layer_skipgram scenario)"
    by (simp_all add: scenario_def)
  have len: "2 < length (vocab scenario)" "3 < length (vocab scenario)"
    by (simp_all add: scenario_def scenario_vocab_def)
  have film: "w2v_model_cbow scenario (vocab scenario ! 2) = None"
    and good: "w2v_model_skipgram scenario (vocab scenario ! 3) = None"
    by (simp_all add: scenario_def scenario_vocab_def)
  have unk: "embedding_layer_cbow scenario ! 1 = [0, 0]"
    "embedding_layer_skipgram scenario ! 1 = [0, 0]"
    by (simp_all add: scenario_def)
  from fallback_rows_equal_row_one [OF c s] len film good unk
  show ?thesis
    by (metis one_less_numeral_iff semiring_norm(76) semiring_norm(77))
qed

subsection \<open>The learnt vocabulary\<close>

lemma length_by_frequency: "length (by_frequency tcs) = length tcs"
  by (simp add: by_frequency_def)

lemma set_by_frequency: "set (by_frequency tcs) = fst ` set tcs"
  by (simp add: by_frequency_def)

lemma distinct_by_frequency: "distinct (map fst tcs) \<Longrightarrow> distinct (by_frequency tcs)"
  by (simp add: by_frequency_def distinct_map rev_map [symmetric])

lemma set_filter_two: "set (filter (\<lambda>t. t \<noteq> a \<and> t \<noteq> b) xs) = set xs - {a, b}"
  by auto

lemma map_fst_pairing: "map fst (map (\<lambda>t. (t, f t)) xs) = xs"
  by (induction xs) simp_all

lemma map_fst_token_counts:
  "map fst (token_counts docs) =
     filter (\<lambda>t. t \<noteq> '''' \<and> t \<noteq> ''[UNK]'') (remdups (concat (map split_whitespace docs)))"
  unfolding token_counts_def Let_def by (rule map_fst_pairing)

lemma distinct_token_counts: "distinct (map fst (token_counts docs))"
  unfolding map_fst_token_counts by (rule distinct_filter) (rule distinct_remdups)

lemma set_token_counts:
  "fst ` set (token_counts docs) = set (concat (map split_whitespace docs)) - {'''', ''[UNK]''}"
proof -
  have "fst ` set (token_counts docs) = set (map fst (token_counts docs))"
    by (simp only: set_map)
  then show ?thesis
    by (simp only: map_fst_token_counts set_filter_two set_remdups)
qed

lemma length_token_counts:
  "length (token_counts docs) =
     card (set (concat (map split_whitespace docs)) - {'''', ''[UNK]''})"
proof -
  have "length (token_counts docs) = length (map fst (token_counts docs))"
    by (simp only: length_map)
  also have "\<dots> = card (set (map fst (token_counts docs)))"
    by (rule distinct_card [symmetric]) (rule distinct_token_counts)
  also have "set (map fst (token_counts docs)) = fst ` set (token_counts docs)"
    by (simp only: set_map)
  finally show ?thesis
    by (simp only: set_token_counts)
qed

lemma vocabulary_adapt:
  "get_vocabulary (adapt layer docs) =
     '''' # ''[UNK]'' # take (max_tokens layer - 2) (by_frequency (token_counts docs))"
  by (simp add: get_vocabulary_def adapt_def)

lemma length_vocabulary_adapt:
  "length (get_vocabulary (adapt layer docs)) =
     2 + min (max_tokens layer - 2) (length (token_counts docs))"
  by (simp add: vocabulary_adapt length_by_frequency min.commute)

lemma max_tokens_vectorize_layer: "max_tokens vectorize_layer = vocab_size"
  by (simp add: vectorize_layer_def TextVectorization_def)

lemma length_vocabulary_notebook:
  "length (get_vocabulary (adapt vectorize_layer docs)) =
     min vocab_size (2 + length (token_counts docs))"
  by (simp add: length_vocabulary_adapt max_tokens_vectorize_layer vocab_size_def)

lemma learned_not_reserved:
  "'''' \<notin> set (take n (by_frequency (token_counts docs)))"
  "''[UNK]'' \<notin> set (take n (by_frequency (token_counts docs)))"
proof -
  have "set (take n (by_frequency (token_counts docs))) \<subseteq> fst ` set (token_counts docs)"
    using set_take_subset [of n "by_frequency (token_counts docs)"]
    by (simp only: set_by_frequency)
  then have sub: "set (take n (by_frequency (token_counts docs)))
      \<subseteq> set (concat (map split_whitespace docs)) - {'''', ''[UNK]''}"
    by (simp only: set_token_counts)
  show "'''' \<notin> set (take n (by_frequency (token_counts docs)))"
    using sub by blast
  show "''[UNK]'' \<notin> set (take n (by_frequency (token_counts docs)))"
    using sub by blast
qed

lemma distinct_vocabulary_adapt: "distinct (get_vocabulary (adapt layer docs))"
proof -
  let ?learned = "take (max_tokens layer - 2) (by_frequency (token_counts docs))"
  have d: "distinct ?learned"
    by (rule distinct_take) (rule distinct_by_frequency, rule distinct_token_counts)
  have ne: "'''' \<noteq> ''[UNK]''"
    by simp
  show ?thesis
    unfolding vocabulary_adapt
    using d ne learned_not_reserved [of "max_tokens layer - 2" docs]
    by (simp only: distinct.simps set_simps insert_iff) blast
qed

lemma small_tokens: "token_counts [''film good film''] = [(''good'', 1), (''film'', 2)]"
  by (simp add: token_counts_def split_whitespace_def ascii_space_def)

lemma small_learned: "by_frequency (token_counts [''film good film'']) = [''film'', ''good'']"
  by (simp add: small_tokens by_frequency_def)

lemma small_vocab: "get_vocabulary (adapt vectorize_layer [''film good film'']) = scenario_vocab"
  by (simp add: vocabulary_adapt small_learned scenario_vocab_def
      max_tokens_vectorize_layer vocab_size_def)

lemma small_corpus_vocab: "vocab small_corpus = scenario_vocab"
  by (simp add: small_corpus_def)

lemma small_corpus_layers:
  "length (embedding_layer_cbow small_corpus) = vocab_size"
  "length (embedding_layer_skipgram small_corpus) = vocab_size"
  by (simp_all add: small_corpus_def)

lemma small_corpus_rows:
  "embedding_layer_cbow small_corpus ! 0 = [0, 0]"
  "embedding_layer_cbow small_corpus ! 1 = [0, 0]"
  "embedding_layer_skipgram small_corpus ! 0 = [0, 0]"
  "embedding_layer_skipgram small_corpus ! 1 = [0, 0]"
  "embedding_layer_cbow small_corpus ! Suc 0 = [0, 0]"
  "embedding_layer_skipgram small_corpus ! Suc 0 = [0, 0]"
  by (simp_all add: small_corpus_def vocab_size_def)

text \<open>
  Claim C5, as the code has it. The loop runs over \<open>range(0, len(vocab))\<close>: with the
  notebook's layers of \<open>vocab_size\<close> rows it returns tables with one row per entry of
  the vocabulary, whatever the vocabulary is, and not one per configured
  \<open>vocab_size\<close>. For the vocabulary the layer learns from a training split that is
  \<open>min vocab_size (2 + d)\<close> rows, where \<open>d\<close> is the number of distinct tokens of the
  split (the two markers left out): \<open>vocab_size\<close> rows exactly when the split has at
  least \<open>vocab_size - 2\<close> distinct tokens.
\<close>

theorem table_row_count:
  assumes "length (embedding_layer_cbow nb) = vocab_size"
    and "length (embedding_layer_skipgram nb) = vocab_size"
  shows "\<exists>embeddings_cbow embeddings_skipgram.
     fill_embedding_matrices nb = Inr (embeddings_cbow, embeddings_skipgram)
     \<and> length embeddings_cbow = length (vocab nb)
     \<and> length embeddings_skipgram = length (vocab nb)
     \<and> (vocab nb = get_vocabulary (adapt vectorize_layer Xclean_train) \<longrightarrow>
          length embeddings_cbow =
            min vocab_size
              (2 + card (set (concat (map split_whitespace Xclean_train)) - {'''', ''[UNK]''})))"
proof -
  have c: "2 \<le> length (embedding_layer_cbow nb)"
    and s: "2 \<le> length (embedding_layer_skipgram nb)"
    using assms by (simp_all add: vocab_size_def)
  have n: "length (vocab nb) =
      min vocab_size
        (2 + card (set (concat (map split_whitespace Xclean_train)) - {'''', ''[UNK]''}))"
    if "vocab nb = get_vocabulary (adapt vectorize_layer Xclean_train)"
    unfolding that length_vocabulary_notebook length_token_counts ..
  show ?thesis
    using fill_embedding_matrices_rows [OF c s] n by simp
qed

text \<open>
  A vocabulary of four entries, which is what the layer learns from the one-document
  corpus \<open>film good film\<close>: four rows.
\<close>

theorem table_row_count_small_corpus:
  "length (embedding_layer_cbow small_corpus) = vocab_size
   \<and> length (embedding_layer_skipgram small_corpus) = vocab_size
   \<and> vocab small_corpus = get_vocabulary (adapt vectorize_layer [''film good film''])
   \<and> (\<exists>embeddings_cbow embeddings_skipgram.
        fill_embedding_matrices small_corpus = Inr (embeddings_cbow, embeddings_skipgram)
        \<and> length embeddings_cbow = 4 \<and> length embeddings_skipgram = 4)"
proof -
  have v: "vocab small_corpus = get_vocabulary (adapt vectorize_layer [''film good film''])"
    by (simp add: small_corpus_def small_vocab)
  have four: "length (vocab small_corpus) = 4"
    by (simp add: small_corpus_vocab scenario_vocab_def)
  show ?thesis
    using table_row_count [OF small_corpus_layers] v small_corpus_layers four
    by (simp only:) blast
qed

text \<open>
  Claim C5 as stated fails on that vocabulary: the layers have \<open>vocab_size = 15000\<close>
  rows and the assembled tables have four.
\<close>

theorem table_rows_below_vocab_size:
  "fill_embedding_matrices small_corpus =
     Inr ([[0, 0], [0, 0], [0, 0], [0.1, 0.2]], [[0, 0], [0, 0], [0, 0], [0.1, 0.2]])
   \<and> length [[0, 0], [0, 0], [0, 0], [0.1, 0.2 :: real]] < vocab_size"
proof -
  have c: "2 \<le> length (embedding_layer_cbow small_corpus)"
    and s: "2 \<le> length (embedding_layer_skipgram small_corpus)"
    by (simp_all add: small_corpus_layers vocab_size_def)
  have wv: "w2v_model_cbow small_corpus = [''good'' \<mapsto> [0.1, 0.2]]"
    "w2v_model_skipgram small_corpus = [''good'' \<mapsto> [0.1, 0.2]]"
    by (simp_all add: small_corpus_def)
  have "fill_embedding_matrices small_corpus =
     Inr ([[0, 0], [0, 0], [0, 0], [0.1, 0.2]], [[0, 0], [0, 0], [0, 0], [0.1, 0.2]])"
    unfolding fill_embedding_matrices_rows [OF c s] small_corpus_vocab wv
    by (simp add: scenario_vocab_def table_row_def small_corpus_rows)
  then show ?thesis
    by (simp add: vocab_size_def)
qed

subsection \<open>Sequences of the vectorisation layer\<close>

lemma length_pad_or_truncate: "length (pad_or_truncate L ids) = L"
  by (simp add: pad_or_truncate_def)

lemma pad_or_truncate_short:
  "length ids \<le> L \<Longrightarrow> pad_or_truncate L ids = ids @ replicate (L - length ids) 0"
  by (simp add: pad_or_truncate_def)

lemma pad_or_truncate_long: "L \<le> length ids \<Longrightarrow> pad_or_truncate L ids = take L ids"
  by (simp add: pad_or_truncate_def)

lemma output_sequence_length_adapt:
  "output_sequence_length (adapt layer docs) = output_sequence_length layer"
  by (simp add: adapt_def)

lemma output_sequence_length_vectorize_layer:
  "output_sequence_length vectorize_layer = seq_length"
  by (simp add: vectorize_layer_def TextVectorization_def)

text \<open>
  Claim C2. Whatever the training split and the document, the sequence the adapted
  layer returns has exactly \<open>seq_length = 100\<close> entries: a document of at most 100
  tokens gives its token indices followed by zeros, a longer one its first 100 indices.
\<close>

theorem token_id_sequence_length:
  "seq_length = 100
   \<and> length (fst (call (adapt vectorize_layer Xclean_train) doc)) = seq_length
   \<and> (length (split_whitespace doc) \<le> seq_length \<longrightarrow>
        fst (call (adapt vectorize_layer Xclean_train) doc) =
          map (token_index (get_vocabulary (adapt vectorize_layer Xclean_train)))
            (split_whitespace doc)
          @ replicate (seq_length - length (split_whitespace doc)) 0)
   \<and> (seq_length \<le> length (split_whitespace doc) \<longrightarrow>
        fst (call (adapt vectorize_layer Xclean_train) doc) =
          take seq_length
            (map (token_index (get_vocabulary (adapt vectorize_layer Xclean_train)))
               (split_whitespace doc)))"
proof -
  let ?layer = "adapt vectorize_layer Xclean_train"
  let ?ids = "map (token_index (get_vocabulary ?layer)) (split_whitespace doc)"
  have L: "output_sequence_length ?layer = seq_length"
    by (simp only: output_sequence_length_adapt output_sequence_length_vectorize_layer)
  have out: "fst (call ?layer doc) = pad_or_truncate seq_length ?ids"
    by (simp add: call_def L get_vocabulary_def)
  have n: "length ?ids = length (split_whitespace doc)"
    by simp
  show ?thesis
    unfolding out
    using pad_or_truncate_short [of ?ids seq_length] pad_or_truncate_long [of seq_length ?ids]
    by (simp add: length_pad_or_truncate seq_length_def)
qed

lemma split_film_good_film: "split_whitespace ''film good film'' = [''film'', ''good'', ''film'']"
  by (simp add: split_whitespace_def ascii_space_def)

lemma scenario_indices:
  "map (token_index scenario_vocab) [''film'', ''good'', ''film''] = [2, 3, 2]"
  by (simp add: token_index_def scenario_vocab_def)

text \<open>
  The specification's example document, with the notebook's length 100.
\<close>

theorem token_id_sequence_length_film_good_film:
  "length (fst (call (adapt vectorize_layer [''film good film'']) ''film good film'')) = 100
   \<and> length (split_whitespace ''film good film'') \<le> seq_length
   \<and> fst (call (adapt vectorize_layer [''film good film'']) ''film good film'') =
       [2, 3, 2] @ replicate 97 0"
proof -
  have short: "length (split_whitespace ''film good film'') \<le> seq_length"
    by (simp add: split_film_good_film seq_length_def)
  have pad: "seq_length - length (split_whitespace ''film good film'') = 97"
    by (simp add: split_film_good_film seq_length_def)
  show ?thesis
    using token_id_sequence_length [of "[''film good film'']" "''film good film''"] short
    by (simp only: pad small_vocab split_film_good_film scenario_indices)
      (simp add: seq_length_def)
qed

lemma call_keeps_layer: "snd (call layer doc) = layer"
  by (simp add: call_def)

lemma call_batch_keeps_layer: "snd (call_batch layer docs) = layer"
proof (induction docs)
  case Nil
  show ?case by simp
next
  case (Cons doc docs)
  obtain rest l where cb: "call_batch layer docs = (rest, l)"
    by (cases "call_batch layer docs")
  with Cons.IH have "l = layer" by simp
  with cb show ?case by (simp add: call_def)
qed

text \<open>
  Claim C3. The vocabulary is the one \<open>adapt\<close> built from the training split, and
  calling the layer on a document, or on a whole collection of test documents, returns
  the layer with the same vocabulary: no token is added, removed or moved.
\<close>

theorem no_vocabulary_leakage:
  "get_vocabulary (snd (call (adapt vectorize_layer Xclean_train) doc)) =
     get_vocabulary (adapt vectorize_layer Xclean_train)
   \<and> get_vocabulary (snd (call_batch (adapt vectorize_layer Xclean_train) Xclean_test)) =
     get_vocabulary (adapt vectorize_layer Xclean_train)
   \<and> snd (call_batch (adapt vectorize_layer Xclean_train) Xclean_test) =
     adapt vectorize_layer Xclean_train"
  by (simp only: call_keeps_layer call_batch_keeps_layer)

text \<open>
  Test documents with the unseen words \<open>bad\<close> and \<open>zoo\<close> leave the vocabulary as it was.
\<close>

theorem no_vocabulary_leakage_unseen_word:
  "get_vocabulary (adapt vectorize_layer [''film good film'']) = ['''', ''[UNK]'', ''film'', ''good'']
   \<and> get_vocabulary
         (snd (call_batch (adapt vectorize_layer [''film good film'']) [''bad film'', ''zoo'']))
       = ['''', ''[UNK]'', ''film'', ''good'']"
  using no_vocabulary_leakage [of "[''film good film'']" "''bad film''" "[''bad film'', ''zoo'']"]
  by (simp only: small_vocab scenario_vocab_def)

subsection \<open>The token lookup\<close>

lemma index_of_None: "tok \<notin> set vs \<Longrightarrow> index_of vs tok = None"
  by (induction vs) auto

lemma index_of_Some: "index_of vs tok = Some i \<Longrightarrow> i < length vs \<and> vs ! i = tok"
  by (induction vs arbitrary: i) (auto split: if_splits)

lemma index_of_member: "tok \<in> set vs \<Longrightarrow> \<exists>i. index_of vs tok = Some i"
  by (induction vs) auto

lemma index_of_nth: "distinct vs \<Longrightarrow> i < length vs \<Longrightarrow> index_of vs (vs ! i) = Some i"
proof (induction vs arbitrary: i)
  case Nil
  then show ?case by simp
next
  case (Cons v vs)
  show ?case
  proof (cases i)
    case 0
    then show ?thesis by simp
  next
    case (Suc j)
    with Cons.prems have "j < length vs" and "vs ! j \<in> set vs" and "v \<notin> set vs"
      by simp_all
    with Cons.IH [of j] Cons.prems Suc show ?thesis by auto
  qed
qed

lemma token_index_absent: "tok \<notin> set vs \<Longrightarrow> token_index vs tok = 1"
  by (simp add: token_index_def index_of_None)

lemma token_index_present:
  "tok \<in> set vs \<Longrightarrow> token_index vs tok < length vs \<and> vs ! token_index vs tok = tok"
  using index_of_member [of tok vs] index_of_Some [of vs tok]
  by (auto simp: token_index_def)

lemma token_index_less: "2 \<le> length vs \<Longrightarrow> token_index vs tok < length vs"
  by (cases "tok \<in> set vs") (simp_all add: token_index_present token_index_absent)

lemma token_index_nth: "distinct vs \<Longrightarrow> i < length vs \<Longrightarrow> token_index vs (vs ! i) = i"
  by (simp add: token_index_def index_of_nth)

lemma split_acc_word:
  "list_all (\<lambda>c. \<not> ascii_space c) w \<Longrightarrow> split_acc cur (w @ rest) = split_acc (cur @ w) rest"
  by (induction w arbitrary: cur) simp_all

lemma split_whitespace_word:
  assumes "tok \<noteq> []" and "list_all (\<lambda>c. \<not> ascii_space c) tok"
  shows "split_whitespace tok = [tok]"
  using split_acc_word [OF assms(2), of "[]" "[]"] assms(1)
  by (simp add: split_whitespace_def)

text \<open>
  Claim C7. The lookup is a total function into the indices: a token that is not in the
  learnt vocabulary gets index 1, a token that is in it gets the index at which the
  vocabulary holds it, and the layer called on one unknown word returns index 1 followed
  by padding.
\<close>

theorem vocabulary_lookup_total:
  "(tok \<notin> set (get_vocabulary (adapt vectorize_layer Xclean_train)) \<longrightarrow>
      token_index (get_vocabulary (adapt vectorize_layer Xclean_train)) tok = 1)
   \<and> (tok \<in> set (get_vocabulary (adapt vectorize_layer Xclean_train)) \<longrightarrow>
      token_index (get_vocabulary (adapt vectorize_layer Xclean_train)) tok
        < length (get_vocabulary (adapt vectorize_layer Xclean_train))
      \<and> get_vocabulary (adapt vectorize_layer Xclean_train)
          ! token_index (get_vocabulary (adapt vectorize_layer Xclean_train)) tok = tok)
   \<and> (tok \<noteq> [] \<and> list_all (\<lambda>c. \<not> ascii_space c) tok
      \<and> tok \<notin> set (get_vocabulary (adapt vectorize_layer Xclean_train)) \<longrightarrow>
      fst (call (adapt vectorize_layer Xclean_train) tok) = 1 # replicate 99 0)"
proof -
  let ?layer = "adapt vectorize_layer Xclean_train"
  have L: "output_sequence_length ?layer = 100"
    by (simp add: output_sequence_length_adapt output_sequence_length_vectorize_layer
        seq_length_def)
  have one: "fst (call ?layer tok) = 1 # replicate 99 0"
    if "tok \<noteq> []" and "list_all (\<lambda>c. \<not> ascii_space c) tok"
      and "tok \<notin> set (get_vocabulary ?layer)"
  proof -
    have "token_index (vocabulary ?layer) tok = 1"
      using that(3) by (simp add: token_index_absent get_vocabulary_def)
    then show ?thesis
      using split_whitespace_word [OF that(1,2)]
      by (simp add: call_def L pad_or_truncate_def)
  qed
  show ?thesis
    using one token_index_absent [of tok "get_vocabulary ?layer"]
      token_index_present [of tok "get_vocabulary ?layer"]
    by blast
qed

text \<open>
  After training on \<open>film good film\<close>, \<open>zoo\<close> is unknown and \<open>good\<close> is found.
\<close>

theorem vocabulary_lookup_total_zoo:
  "''zoo'' \<notin> set (get_vocabulary (adapt vectorize_layer [''film good film'']))
   \<and> token_index (get_vocabulary (adapt vectorize_layer [''film good film''])) ''zoo'' = 1
   \<and> fst (call (adapt vectorize_layer [''film good film'']) ''zoo'') = 1 # replicate 99 0
   \<and> ''good'' \<in> set (get_vocabulary (adapt vectorize_layer [''film good film'']))
   \<and> get_vocabulary (adapt vectorize_layer [''film good film''])
       ! token_index (get_vocabulary (adapt vectorize_layer [''film good film''])) ''good''
       = ''good''"
proof -
  have zoo: "''zoo'' \<notin> set (get_vocabulary (adapt vectorize_layer [''film good film'']))"
    by (simp add: small_vocab scenario_vocab_def)
  have word: "''zoo'' \<noteq> [] \<and> list_all (\<lambda>c. \<not> ascii_space c) ''zoo''"
    by (simp add: ascii_space_def)
  have good: "''good'' \<in> set (get_vocabulary (adapt vectorize_layer [''film good film'']))"
    by (simp add: small_vocab scenario_vocab_def)
  show ?thesis
    using vocabulary_lookup_total [of "''zoo''" "[''film good film'']"]
      vocabulary_lookup_total [of "''good''" "[''film good film'']"] zoo word good
    by blast
qed

subsection \<open>From words back to indices\<close>

lemma words_of_review_in_range:
  "list_all (\<lambda>w. w < length vs) review \<Longrightarrow>
     words_of_review vs review =
       Inr (filter (\<lambda>tok. tok \<notin> set ['''', ''[UNK]'']) (map ((!) vs) review))"
  by (induction review) (simp_all add: getitem_def)

lemma X_train_words_in_range:
  "list_all (list_all (\<lambda>w. w < length vs)) X_train_vec \<Longrightarrow>
     X_train_words vs X_train_vec =
       Inr (map (\<lambda>review. filter (\<lambda>tok. tok \<notin> set ['''', ''[UNK]'']) (map ((!) vs) review))
              X_train_vec)"
  by (induction X_train_vec) (simp_all add: words_of_review_in_range del: set_simps)

lemma reserved_only_at_0_and_1:
  assumes "distinct vs" and "vs ! 0 = a" and "vs ! 1 = b" and "2 \<le> length vs"
    and "w < length vs"
  shows "(vs ! w \<notin> set [a, b]) = (w \<noteq> 0 \<and> w \<noteq> 1)"
proof -
  have z: "0 < length vs" and u: "1 < length vs"
    using assms(4) by linarith+
  have "(vs ! w = vs ! 0) = (w = 0)" and "(vs ! w = vs ! 1) = (w = 1)"
    using nth_eq_iff_index_eq [OF assms(1,5) z] nth_eq_iff_index_eq [OF assms(1,5) u]
    by simp_all
  then show ?thesis
    using assms(2,3) by simp
qed

lemma reencode_filter:
  assumes "distinct vs" and "vs ! 0 = a" and "vs ! 1 = b" and "2 \<le> length vs"
  shows "list_all (\<lambda>w. w < length vs) review \<Longrightarrow>
     map (token_index vs) (filter (\<lambda>tok. tok \<notin> set [a, b]) (map ((!) vs) review)) =
       filter (\<lambda>w. w \<noteq> 0 \<and> w \<noteq> 1) review"
proof (induction review)
  case Nil
  show ?case by simp
next
  case (Cons w review)
  then have w_lt: "w < length vs" and tail: "list_all (\<lambda>i. i < length vs) review"
    by simp_all
  have keep: "(vs ! w \<notin> set [a, b]) = (w \<noteq> 0 \<and> w \<noteq> 1)"
    using assms w_lt by (rule reserved_only_at_0_and_1)
  have same: "token_index vs (vs ! w) = w"
    using assms(1) w_lt by (rule token_index_nth)
  show ?case
  proof (cases "vs ! w \<notin> set [a, b]")
    case True
    with keep have "w \<noteq> 0 \<and> w \<noteq> 1" by simp
    with True same Cons.IH [OF tail] show ?thesis
      by (simp del: set_simps)
  next
    case False
    with keep have "\<not> (w \<noteq> 0 \<and> w \<noteq> 1)" by simp
    with False Cons.IH [OF tail] show ?thesis
      by (simp del: set_simps)
  qed
qed

lemma pad_or_truncate_in_range:
  assumes "0 < n" and "list_all (\<lambda>w. w < n) ids"
  shows "list_all (\<lambda>w. w < n) (pad_or_truncate L ids)"
proof -
  have "list_all (\<lambda>w. w < n) (take L ids)"
    using assms(2) by (auto simp: list_all_iff dest: in_set_takeD)
  moreover have "list_all (\<lambda>w. w < n) (replicate (L - length ids) 0)"
    using assms(1) by (simp add: list_all_iff)
  ultimately show ?thesis
    by (simp add: pad_or_truncate_def)
qed

lemma call_in_range:
  assumes "2 \<le> length (vocabulary layer)"
  shows "list_all (\<lambda>w. w < length (vocabulary layer)) (fst (call layer doc))"
proof -
  have "list_all (\<lambda>w. w < length (vocabulary layer))
      (map (token_index (vocabulary layer)) (split_whitespace doc))"
    using assms by (simp add: list_all_iff token_index_less)
  moreover have "0 < length (vocabulary layer)"
    using assms by linarith
  ultimately show ?thesis
    unfolding call_def fst_conv by (rule pad_or_truncate_in_range [rotated])
qed

text \<open>
  Claim C4. For every layer, training split and document: the comprehension that turns
  the document's index sequence back into words returns (every index is in range), and
  looking its words up again in the same vocabulary gives exactly the indices of the
  sequence that are neither 0 nor 1, in their order.
\<close>

theorem materialise_then_reencode:
  "\<exists>words.
     words_of_review (get_vocabulary (adapt layer Xclean_train))
       (fst (call (adapt layer Xclean_train) doc)) = Inr words
     \<and> map (token_index (get_vocabulary (adapt layer Xclean_train))) words =
         filter (\<lambda>w. w \<noteq> 0 \<and> w \<noteq> 1) (fst (call (adapt layer Xclean_train) doc))"
proof -
  let ?layer = "adapt layer Xclean_train"
  let ?vs = "get_vocabulary ?layer"
  let ?review = "fst (call ?layer doc)"
  have d: "distinct ?vs"
    by (rule distinct_vocabulary_adapt)
  have z: "?vs ! 0 = ''''" and u: "?vs ! 1 = ''[UNK]''" and n: "2 \<le> length ?vs"
    by (simp_all add: vocabulary_adapt)
  have r: "list_all (\<lambda>w. w < length ?vs) ?review"
    using n call_in_range [of ?layer doc] by (simp add: get_vocabulary_def)
  have "words_of_review ?vs ?review =
      Inr (filter (\<lambda>tok. tok \<notin> set ['''', ''[UNK]'']) (map ((!) ?vs) ?review))"
    using r by (rule words_of_review_in_range)
  moreover have "map (token_index ?vs)
      (filter (\<lambda>tok. tok \<notin> set ['''', ''[UNK]'']) (map ((!) ?vs) ?review)) =
      filter (\<lambda>w. w \<noteq> 0 \<and> w \<noteq> 1) ?review"
    using d z u n r by (rule reencode_filter)
  ultimately show ?thesis
    by blast
qed

lemma split_film_bad_good: "split_whitespace ''film bad good'' = [''film'', ''bad'', ''good'']"
  by (simp add: split_whitespace_def ascii_space_def)

lemma call_film_bad_good:
  "fst (call (adapt vectorize_layer [''film good film'']) ''film bad good'') =
     [2, 1, 3] @ replicate 97 0"
proof -
  have "vocabulary (adapt vectorize_layer [''film good film'']) = scenario_vocab"
    using small_vocab by (simp add: get_vocabulary_def)
  moreover have "map (token_index scenario_vocab) [''film'', ''bad'', ''good''] = [2, 1, 3]"
    by (simp add: token_index_def scenario_vocab_def)
  ultimately show ?thesis
    by (simp add: call_def split_film_bad_good pad_or_truncate_def
        output_sequence_length_adapt output_sequence_length_vectorize_layer seq_length_def)
qed

text \<open>
  The document \<open>film bad good\<close> has the sequence 2, 1, 3 and padding; the words
  \<open>film\<close> and \<open>good\<close> come back and are re-encoded as 2, 3.
\<close>

theorem materialise_then_reencode_film_bad_good:
  "fst (call (adapt vectorize_layer [''film good film'']) ''film bad good'') =
     [2, 1, 3] @ replicate 97 0
   \<and> (\<exists>words.
        words_of_review (get_vocabulary (adapt vectorize_layer [''film good film'']))
          ([2, 1, 3] @ replicate 97 0) = Inr words
        \<and> map (token_index (get_vocabulary (adapt vectorize_layer [''film good film''])))
            words = [2, 3])"
proof -
  have kept: "filter (\<lambda>w. w \<noteq> 0 \<and> w \<noteq> 1) ([2, 1, 3] @ replicate 97 (0::nat)) = [2, 3]"
    by simp
  show ?thesis
    using materialise_then_reencode [of vectorize_layer "[''film good film'']" "''film bad good''"]
    by (simp only: call_film_bad_good kept)
qed

subsection \<open>The threshold\<close>

text \<open>
  Claim C8. For a probability between 0 and 1 the class is 1 exactly when the
  probability is at least 0.5, and 0 exactly when it is below; 0.5 gives class 1 and
  0.4999 gives class 0.
\<close>

theorem decision_threshold:
  "(0 \<le> p \<and> p \<le> 1 \<longrightarrow>
      (class_pr p = 1) = (p \<ge> 0.5) \<and> (class_pr p = 0) = (p < 0.5))
   \<and> class_pr 0.5 = 1 \<and> class_pr 0.4999 = 0"
  by (simp add: class_pr_def)

text \<open>
  At the threshold itself.
\<close>

theorem decision_threshold_at_one_half:
  "(0::real) \<le> 0.5 \<and> (0.5::real) \<le> 1 \<and> class_pr 0.5 = 1 \<and> class_pr 0.5 \<noteq> 0"
  using decision_threshold [of "0.5"] by simp

subsection \<open>The normaliser\<close>

lemma lower_letter_not_space: "lower_letter c \<Longrightarrow> \<not> ascii_space c"
  by (auto simp: lower_letter_def ascii_space_def)

lemma lower_word_no_space: "lower_word w \<Longrightarrow> list_all (\<lambda>c. \<not> ascii_space c) w"
  by (simp add: lower_word_def list_all_iff lower_letter_not_space)

lemma split_join_spaces:
  "list_all lower_word ws \<Longrightarrow> split_acc [] (join_spaces ws) = ws"
proof (induction ws rule: join_spaces.induct)
  case 1
  show ?case by simp
next
  case (2 w)
  then have "lower_word w" by simp
  then have "w \<noteq> []" and "list_all (\<lambda>c. \<not> ascii_space c) w"
    by (simp_all add: lower_word_def lower_word_no_space)
  then show ?case
    using split_acc_word [of w "[]" "[]"] by simp
next
  case (3 w v ws)
  then have "lower_word w" and tail: "list_all lower_word (v # ws)"
    by simp_all
  then have "w \<noteq> []" and "list_all (\<lambda>c. \<not> ascii_space c) w"
    by (simp_all add: lower_word_def lower_word_no_space)
  then have "split_acc [] (w @ CHR '' '' # join_spaces (v # ws)) =
      w # split_acc [] (join_spaces (v # ws))"
    using split_acc_word [of w "[]" "CHR '' '' # join_spaces (v # ws)"]
    by (simp add: ascii_space_def)
  with "3.IH" [OF tail] show ?case by simp
qed

lemma split_whitespace_join_spaces:
  "list_all lower_word ws \<Longrightarrow> split_whitespace (join_spaces ws) = ws"
  by (simp add: split_whitespace_def split_join_spaces)

lemma lower_char_letter: "ascii_letter c \<Longrightarrow> lower_letter (lower_char c)"
  by (auto simp: ascii_letter_def lower_letter_def lower_char_def Let_def)

lemma lower_char_space: "lower_char CHR '' '' = CHR '' ''"
  by (simp add: lower_char_def)

lemma lower_char_fixed: "lower_letter c \<Longrightarrow> lower_char c = c"
  by (auto simp: lower_letter_def lower_char_def Let_def)

lemma lower_letter_is_letter: "lower_letter c \<Longrightarrow> ascii_letter c"
  by (simp add: lower_letter_def ascii_letter_def Let_def)

lemma lowered_letters_and_spaces:
  "list_all (\<lambda>c. lower_letter c \<or> c = CHR '' '') (lower (non_letters_to_spaces s))"
  by (induction s)
    (simp_all add: lower_def non_letters_to_spaces_def lower_char_letter lower_char_space)

lemma letters_and_spaces_fixed:
  "list_all (\<lambda>c. lower_letter c \<or> c = CHR '' '') s \<Longrightarrow>
     lower (non_letters_to_spaces s) = s"
  by (induction s)
    (auto simp: lower_def non_letters_to_spaces_def lower_char_fixed lower_char_space
      lower_letter_is_letter)

lemma join_spaces_chars:
  "list_all lower_word ws \<Longrightarrow>
     list_all (\<lambda>c. lower_letter c \<or> c = CHR '' '') (join_spaces ws)"
  by (induction ws rule: join_spaces.induct) (auto simp: lower_word_def list_all_iff)

lemma split_acc_lower_words:
  "list_all lower_letter cur \<Longrightarrow> list_all (\<lambda>c. lower_letter c \<or> c = CHR '' '') t \<Longrightarrow>
     list_all lower_word (split_acc cur t)"
proof (induction t arbitrary: cur)
  case Nil
  then show ?case by (simp add: lower_word_def)
next
  case (Cons c t)
  show ?case
  proof (cases "ascii_space c")
    case True
    have "list_all lower_word (split_acc [] t)"
      using Cons.IH [of "[]"] Cons.prems(2) by simp
    moreover have "cur \<noteq> [] \<Longrightarrow> lower_word cur"
      using Cons.prems(1) by (simp add: lower_word_def)
    ultimately show ?thesis
      using True by simp
  next
    case False
    then have "c \<noteq> CHR '' ''"
      by (auto simp: ascii_space_def)
    with Cons.prems have "list_all lower_letter (cur @ [c])"
      by simp
    with False Cons.IH [of "cur @ [c]"] Cons.prems(2) show ?thesis
      by simp
  qed
qed

lemma split_whitespace_lower_words:
  "list_all (\<lambda>c. lower_letter c \<or> c = CHR '' '') t \<Longrightarrow>
     list_all lower_word (split_whitespace t)"
  by (simp add: split_whitespace_def split_acc_lower_words)

lemma lemmatize_all_lower_words:
  assumes "\<And>w. lower_word w \<Longrightarrow> pos_tag r w \<noteq> []"
    and "\<And>w p. lower_word w \<Longrightarrow> lower_word (lemmatize r w p)"
  shows "list_all lower_word ws \<Longrightarrow>
     \<exists>ls. lemmatize_all r ws = Inr ls \<and> list_all lower_word ls"
proof (induction ws)
  case Nil
  show ?case by simp
next
  case (Cons w ws)
  then have w: "lower_word w" and "list_all lower_word ws"
    by simp_all
  with Cons.IH obtain ls where ls: "lemmatize_all r ws = Inr ls" "list_all lower_word ls"
    by blast
  from assms(1) [OF w] obtain pos where pos: "get_wordnet_pos r w = Inr pos"
    by (cases "pos_tag r w") (simp_all add: get_wordnet_pos_def getitem_def)
  show ?case
    using ls pos assms(2) [OF w] by simp
qed

text \<open>
  Claim C10. Whatever the input string and whatever the markup stripper returns, the
  pipeline returns a string whose whitespace-separated tokens are non-empty words of
  lower-case letters a to z and which is those tokens joined by single spaces; this
  holds for libraries that keep words of lower-case letters as such
  (\<open>letters_in_letters_out\<close>).
\<close>

theorem normalised_output_shape:
  assumes "letters_in_letters_out r"
  shows "\<exists>out. NLP_preprocessing_pipeline r textual_sample = Inr out
     \<and> list_all lower_word (split_whitespace out)
     \<and> out = join_spaces (split_whitespace out)"
proof -
  let ?s4 = "lower (non_letters_to_spaces (get_text r (remove_urls textual_sample)))"
  let ?kept = "filter (\<lambda>w. w \<notin> set (stopwords_english r)) (word_tokenize r ?s4)"
  from assms have tok: "\<And>t. list_all (\<lambda>c. lower_letter c \<or> c = CHR '' '') t
        \<Longrightarrow> list_all lower_word (word_tokenize r t)"
    and tag: "\<And>w. lower_word w \<Longrightarrow> pos_tag r w \<noteq> []"
    and lem: "\<And>w p. lower_word w \<Longrightarrow> lower_word (lemmatize r w p)"
    by (simp_all add: letters_in_letters_out_def)
  have "list_all lower_word (word_tokenize r ?s4)"
    by (rule tok) (rule lowered_letters_and_spaces)
  then have "list_all lower_word ?kept"
    by (simp add: list_all_iff)
  with lemmatize_all_lower_words [OF tag lem] obtain ls
    where ls: "lemmatize_all r ?kept = Inr ls" "list_all lower_word ls"
    by blast
  have out: "NLP_preprocessing_pipeline r textual_sample = Inr (join_spaces ls)"
    using ls(1) by (simp add: NLP_preprocessing_pipeline_def)
  have "split_whitespace (join_spaces ls) = ls"
    using ls(2) by (rule split_whitespace_join_spaces)
  with out ls(2) show ?thesis
    by simp
qed

lemma excerpt_letters: "letters_in_letters_out excerpt"
proof -
  have "lower_word (excerpt_lemma w p)" if "lower_word w" for w p
    using that by (simp add: excerpt_lemma_def lower_word_def lower_letter_def)
  then show ?thesis
    by (simp add: letters_in_letters_out_def excerpt_def split_whitespace_lower_words)
qed

lemma excerpt_run:
  "NLP_preprocessing_pipeline excerpt ''The Films of the reviewers: http://x.y 12'' =
     Inr ''film reviewer''"
  by code_simp

text \<open>
  A run with capitals, stop words, punctuation, a URL and digits in the input.
\<close>

theorem normalised_output_shape_excerpt:
  "letters_in_letters_out excerpt
   \<and> (\<exists>out. NLP_preprocessing_pipeline excerpt ''The Films of the reviewers: http://x.y 12'' =
          Inr out
        \<and> out = ''film reviewer''
        \<and> list_all lower_word (split_whitespace out)
        \<and> out = join_spaces (split_whitespace out))"
  using normalised_output_shape [OF excerpt_letters,
      of "''The Films of the reviewers: http://x.y 12''"] excerpt_letters
  by (simp only: excerpt_run) simp

text \<open>
  Claim C6, as the code has it. A text that is a list of lower-case words joined by
  single spaces comes back unchanged when the URL pattern does not match in it, the
  markup stripper and the tokeniser leave it as it is, none of its words is a stop word
  and every word is its own lemma.
\<close>

theorem normalised_text_fixed:
  assumes "list_all lower_word ws"
    and "remove_urls (join_spaces ws) = join_spaces ws"
    and "get_text r (join_spaces ws) = join_spaces ws"
    and "word_tokenize r (join_spaces ws) = ws"
    and "list_all (\<lambda>w. w \<notin> set (stopwords_english r)) ws"
    and "lemmatize_all r ws = Inr ws"
  shows "NLP_preprocessing_pipeline r (join_spaces ws) = Inr (join_spaces ws)"
proof -
  have s4: "lower (non_letters_to_spaces (join_spaces ws)) = join_spaces ws"
    using assms(1) by (intro letters_and_spaces_fixed join_spaces_chars)
  have kept: "filter (\<lambda>w. w \<notin> set (stopwords_english r)) ws = ws"
    using assms(5) by (simp add: list_all_iff)
  show ?thesis
    unfolding NLP_preprocessing_pipeline_def Let_def
    by (simp only: assms(2,3,4,6) s4 kept sum.case)
qed

lemma film_reviewer_words:
  "list_all lower_word [''film'', ''reviewer'']"
  "join_spaces [''film'', ''reviewer''] = ''film reviewer''"
  by (simp_all add: lower_word_def lower_letter_def)

lemma film_reviewer_stages:
  "remove_urls ''film reviewer'' = ''film reviewer''"
  "get_text excerpt ''film reviewer'' = ''film reviewer''"
  "word_tokenize excerpt ''film reviewer'' = [''film'', ''reviewer'']"
  "list_all (\<lambda>w. w \<notin> set (stopwords_english excerpt)) [''film'', ''reviewer'']"
  "lemmatize_all excerpt [''film'', ''reviewer''] = Inr [''film'', ''reviewer'']"
  by code_simp+

text \<open>
  The text \<open>film reviewer\<close> is such a fixed point.
\<close>

theorem normalised_text_fixed_film_reviewer:
  "list_all lower_word [''film'', ''reviewer'']
   \<and> remove_urls ''film reviewer'' = ''film reviewer''
   \<and> get_text excerpt ''film reviewer'' = ''film reviewer''
   \<and> word_tokenize excerpt ''film reviewer'' = [''film'', ''reviewer'']
   \<and> list_all (\<lambda>w. w \<notin> set (stopwords_english excerpt)) [''film'', ''reviewer'']
   \<and> lemmatize_all excerpt [''film'', ''reviewer''] = Inr [''film'', ''reviewer'']
   \<and> NLP_preprocessing_pipeline excerpt ''film reviewer'' = Inr ''film reviewer''"
  using normalised_text_fixed [of "[''film'', ''reviewer'']" excerpt]
    film_reviewer_words(1) film_reviewer_stages
  unfolding film_reviewer_words(2)
  by blast

lemma upper_case_url_survives:
  "NLP_preprocessing_pipeline excerpt ''HTTPX'' = Inr ''httpx''"
  "NLP_preprocessing_pipeline excerpt ''httpx'' = Inr ''''"
  by code_simp+

lemma lemma_is_stop_word:
  "NLP_preprocessing_pipeline excerpt ''beings'' = Inr ''being''"
  "NLP_preprocessing_pipeline excerpt ''being'' = Inr ''''"
  by code_simp+

text \<open>
  Claim C6 as stated fails: normalising the pipeline's own output can change it. The
  lemma of \<open>beings\<close> is the stop word \<open>being\<close>, which the second run removes; and
  \<open>HTTPX\<close> escapes the case-sensitive URL pattern, is lower-cased to \<open>httpx\<close>, and is
  removed as a URL by the second run.
\<close>

theorem normalising_twice_differs:
  "NLP_preprocessing_pipeline excerpt ''beings'' = Inr ''being''
   \<and> NLP_preprocessing_pipeline excerpt ''being'' = Inr ''''
   \<and> NLP_preprocessing_pipeline excerpt ''being'' \<noteq> Inr ''being''
   \<and> NLP_preprocessing_pipeline excerpt ''HTTPX'' = Inr ''httpx''
   \<and> NLP_preprocessing_pipeline excerpt ''httpx'' = Inr ''''
   \<and> NLP_preprocessing_pipeline excerpt ''httpx'' \<noteq> Inr ''httpx''"
  by (simp add: upper_case_url_survives lemma_is_stop_word)

end
